theory Spec2Isabelle
  imports Main
begin

section \<open>inspect_images.py: a shallow embedding\<close>

text \<open>
  The script walks a fixed list of five file names. For each it joins the name to a fixed
  base directory, asks \<^verbatim>\<open>os.path.exists\<close>, and, when the path exists, opens it with
  \<^verbatim>\<open>Image.open\<close>, prints mode and size, reads the four corner pixels and prints them;
  any \<^verbatim>\<open>Exception\<close> raised in between is caught and printed. A path that does not
  exist is reported as not found.

  The script's only inputs are the file system and what the imaging library makes of
  each file. Both are data of the model: a \<open>world\<close> holds the file system and the
  chronological trace of the calls the script makes to the outside (existence checks,
  opens, pixel reads, prints). Every library call takes the world and returns it with
  its event appended, so that order and absence of effects can be stated.
\<close>

subsection \<open>Python values and their text\<close>

text \<open>\<^verbatim>\<open>str\<close> of a non-negative integer, in decimal.\<close>

fun str_nat :: "nat \<Rightarrow> string" where
  "str_nat n =
     (if n < 10 then [''0123456789'' ! n]
      else str_nat (n div 10) @ [''0123456789'' ! (n mod 10)])"

declare str_nat.simps [simp del]

text \<open>\<^verbatim>\<open>str\<close> of a Python integer (unbounded, so an \<open>int\<close>).\<close>

definition str_int :: "int \<Rightarrow> string" where
  "str_int i = (if i < 0 then ''-'' @ str_nat (nat (- i)) else str_nat (nat i))"

text \<open>\<^verbatim>\<open>sep.join(parts)\<close>.\<close>

fun str_join :: "string \<Rightarrow> string list \<Rightarrow> string" where
  "str_join sep [] = []"
| "str_join sep [x] = x"
| "str_join sep (x # y # ys) = x @ sep @ str_join sep (y # ys)"

text \<open>
  \<^verbatim>\<open>repr\<close> of a tuple of integers: \<^verbatim>\<open>()\<close>, \<^verbatim>\<open>(5,)\<close>, \<^verbatim>\<open>(1, 2, 3)\<close>.
\<close>

definition repr_tuple :: "int list \<Rightarrow> string" where
  "repr_tuple xs =
     (case xs of
        [x] \<Rightarrow> ''('' @ str_int x @ '',)''
      | _ \<Rightarrow> ''('' @ str_join '', '' (map str_int xs) @ '')'')"

text \<open>
  What \<^verbatim>\<open>getpixel\<close> returns: one integer for a single-band image, a tuple of integers
  for a multi-band one (RGB, RGBA, which is what a WebP file decodes to). Floating-point
  bands (mode \<^verbatim>\<open>F\<close>) are outside the model.
\<close>

datatype pixel = Band int | Bands "int list"

fun repr_pixel :: "pixel \<Rightarrow> string" where
  "repr_pixel (Band v) = str_int v"
| "repr_pixel (Bands vs) = repr_tuple vs"

text \<open>\<^verbatim>\<open>str\<close> of a list of pixel values, as the f-string prints \<^verbatim>\<open>corners\<close>.\<close>

definition repr_list :: "pixel list \<Rightarrow> string" where
  "repr_list ps = ''['' @ str_join '', '' (map repr_pixel ps) @ '']''"

subsection \<open>The outside world\<close>

text \<open>
  An opened image: the attributes the script reads and its \<^verbatim>\<open>getpixel\<close> method.
  \<^verbatim>\<open>Image.open\<close> is lazy, the pixel data is decoded at the first read, so a read can
  raise although the open succeeded: \<open>getpixel\<close> yields \<open>Inl\<close> of the text of the
  exception, or \<open>Inr\<close> of the value. \<^verbatim>\<open>img.size\<close> is the pair of width and height.
\<close>

record image =
  mode :: string
  width :: int
  height :: int
  getpixel :: "int \<times> int \<Rightarrow> string + pixel"

text \<open>
  What a path names. \<open>Inaccessible\<close>: the entry cannot be examined (\<^verbatim>\<open>os.stat\<close>
  raises \<^verbatim>\<open>OSError\<close>, as below a directory that may not be searched). A regular file
  carries what \<^verbatim>\<open>Image.open\<close> makes of its content: the text of the exception, or
  the image.
\<close>

datatype node = Absent | Inaccessible | Directory | RegularFile "string + image"

datatype event = Exists string | Open string | GetPixel int int | Print string

record world =
  fs :: "string \<Rightarrow> node"
  trace :: "event list"

definition emit :: "event \<Rightarrow> world \<Rightarrow> world" where
  "emit e w = w\<lparr>trace := trace w @ [e]\<rparr>"

text \<open>The lines printed so far, oldest first.\<close>

fun printed :: "event list \<Rightarrow> string list" where
  "printed [] = []"
| "printed (Print s # es) = s # printed es"
| "printed (_ # es) = printed es"

definition stdout :: "world \<Rightarrow> string list" where
  "stdout w = printed (trace w)"

text \<open>
  \<^verbatim>\<open>os.path.exists\<close>: true when \<^verbatim>\<open>os.stat\<close> succeeds; it catches \<^verbatim>\<open>OSError\<close> and
  answers false, so it never raises.
\<close>

definition os_path_exists :: "string \<Rightarrow> world \<Rightarrow> bool \<times> world" where
  "os_path_exists p w =
     ((case fs w p of Absent \<Rightarrow> False | Inaccessible \<Rightarrow> False
       | Directory \<Rightarrow> True | RegularFile _ \<Rightarrow> True),
      emit (Exists p) w)"

text \<open>
  \<^verbatim>\<open>repr\<close> of a path inside the message of an \<^verbatim>\<open>OSError\<close>, for a path of
  printable characters without quotes: single quotes around it, backslashes doubled.
\<close>

definition repr_path :: "string \<Rightarrow> string" where
  "repr_path p =
     [CHR 0x27] @ concat (map (\<lambda>c. if c = CHR 0x5C then [c, c] else [c]) p) @ [CHR 0x27]"

text \<open>
  \<^verbatim>\<open>Image.open(path)\<close>. The library first opens the path as a binary file, which
  raises \<^verbatim>\<open>OSError\<close> on anything but a readable regular file (on Windows, where the
  base path of the script lives, a directory gives errno 13); then it identifies the
  content.
\<close>

definition Image_open :: "string \<Rightarrow> world \<Rightarrow> (string + image) \<times> world" where
  "Image_open p w =
     ((case fs w p of
         Absent \<Rightarrow> Inl (''[Errno 2] No such file or directory: '' @ repr_path p)
       | Inaccessible \<Rightarrow> Inl (''[Errno 13] Permission denied: '' @ repr_path p)
       | Directory \<Rightarrow> Inl (''[Errno 13] Permission denied: '' @ repr_path p)
       | RegularFile r \<Rightarrow> r),
      emit (Open p) w)"

definition img_getpixel :: "image \<Rightarrow> int \<times> int \<Rightarrow> world \<Rightarrow> (string + pixel) \<times> world" where
  "img_getpixel img xy w = (getpixel img xy, emit (GetPixel (fst xy) (snd xy)) w)"

definition print :: "string \<Rightarrow> world \<Rightarrow> world" where
  "print s w = emit (Print s) w"

text \<open>
  \<^verbatim>\<open>os.path.join(base, name)\<close> on Windows for a plain relative name (no drive, no
  leading separator), which every listed name is: a backslash goes between the two
  unless the base is empty or already ends in a separator or a colon.
\<close>

definition os_path_join :: "string \<Rightarrow> string \<Rightarrow> string" where
  "os_path_join a b =
     (if a = [] \<or> last a \<in> {CHR 0x5C, CHR ''/'', CHR '':''} then a @ b
      else a @ [CHR 0x5C] @ b)"

subsection \<open>The script\<close>

definition files :: "string list" where
  "files = [''saver.webp'', ''comfort.webp'', ''vip.webp'', ''taxi.webp'', ''scooter.webp'']"

definition base_path :: string where
  "base_path =
     ''e:'' @ [CHR 0x5C] @ ''sm-new'' @ [CHR 0x5C] @ ''smart-v2'' @ [CHR 0x5C] @
     ''smartline-app'' @ [CHR 0x5C] @ ''src'' @ [CHR 0x5C] @ ''assets'' @ [CHR 0x5C] @
     ''images''"

text \<open>
  A list display evaluates its elements left to right; the first read that raises
  abandons the rest.
\<close>

fun getpixels :: "image \<Rightarrow> (int \<times> int) list \<Rightarrow> world \<Rightarrow> (string + pixel list) \<times> world" where
  "getpixels img [] w = (Inr [], w)"
| "getpixels img (xy # xys) w =
     (case img_getpixel img xy w of
        (Inl e, w1) \<Rightarrow> (Inl e, w1)
      | (Inr p, w1) \<Rightarrow>
          (case getpixels img xys w1 of
             (Inl e, w2) \<Rightarrow> (Inl e, w2)
           | (Inr ps, w2) \<Rightarrow> (Inr (p # ps), w2)))"

definition corners :: "image \<Rightarrow> world \<Rightarrow> (string + pixel list) \<times> world" where
  "corners img w =
     getpixels img
       [(0, 0), (width img - 1, 0), (0, height img - 1), (width img - 1, height img - 1)] w"

definition mode_line :: "string \<Rightarrow> image \<Rightarrow> string" where
  "mode_line f img =
     f @ '': Mode='' @ mode img @ '', Size='' @ repr_tuple [width img, height img]"

definition corners_line :: "pixel list \<Rightarrow> string" where
  "corners_line ps = ''  Corners: '' @ repr_list ps"

definition error_line :: "string \<Rightarrow> string \<Rightarrow> string" where
  "error_line f e = ''  Error reading '' @ f @ '': '' @ e"

definition not_found_line :: "string \<Rightarrow> string" where
  "not_found_line f = f @ '' not found''"

text \<open>
  The loop of the script:
  \<^verbatim>\<open>
  for f in files:
      path = os.path.join(base_path, f)
      if os.path.exists(path):
          try:
              img = Image.open(path)
              print(f"{f}: Mode={img.mode}, Size={img.size}")
              corners = [
                  img.getpixel((0, 0)),
                  img.getpixel((img.width-1, 0)),
                  img.getpixel((0, img.height-1)),
                  img.getpixel((img.width-1, img.height-1))
              ]
              print(f"  Corners: {corners}")
          except Exception as e:
              print(f"  Error reading {f}: {e}")
      else:
          print(f"{f} not found")
  \<close>
  The body of the \<^verbatim>\<open>try\<close> comes first: \<open>Inl\<close> of the exception's text when a
  statement raises, with the world as it was left at that point.
\<close>

definition try_block :: "string \<Rightarrow> string \<Rightarrow> world \<Rightarrow> (string + unit) \<times> world" where
  "try_block f path w =
     (case Image_open path w of
        (Inl e, w1) \<Rightarrow> (Inl e, w1)
      | (Inr img, w1) \<Rightarrow>
          (case corners img (print (mode_line f img) w1) of
             (Inl e, w2) \<Rightarrow> (Inl e, w2)
           | (Inr cs, w2) \<Rightarrow> (Inr (), print (corners_line cs) w2)))"

text \<open>One iteration of the \<^verbatim>\<open>for\<close> loop.\<close>

definition loop_body :: "string \<Rightarrow> world \<Rightarrow> world" where
  "loop_body f w =
     (let path = os_path_join base_path f in
      case os_path_exists path w of
        (True, w1) \<Rightarrow>
          (case try_block f path w1 of
             (Inl e, w2) \<Rightarrow> print (error_line f e) w2
           | (Inr _, w2) \<Rightarrow> w2)
      | (False, w1) \<Rightarrow> print (not_found_line f) w1)"

fun for_loop :: "string list \<Rightarrow> world \<Rightarrow> world" where
  "for_loop [] w = w"
| "for_loop (f # rest) w = for_loop rest (loop_body f w)"

definition main :: "world \<Rightarrow> world" where
  "main w = for_loop files w"

text \<open>
  Outside the model: a \<^verbatim>\<open>print\<close> that itself raises, and exceptions that are not
  an \<^verbatim>\<open>Exception\<close> (a keyboard interrupt).
\<close>

subsection \<open>Vocabulary for the properties\<close>

text \<open>
  The events one iteration adds for the name \<open>f\<close> on the file system \<open>g\<close>, taken
  from the loop body itself, started on an empty trace.
\<close>

definition events_for :: "(string \<Rightarrow> node) \<Rightarrow> string \<Rightarrow> event list" where
  "events_for g f = trace (loop_body f \<lparr>fs = g, trace = []\<rparr>)"


subsection \<open>Sample inputs\<close>

text \<open>A 3 by 2 RGB image whose pixel at \<open>(x, y)\<close> is \<open>(x, y, 255)\<close>.\<close>

definition img_ok :: image where
  "img_ok =
     \<lparr>mode = ''RGB'', width = 3, height = 2,
      getpixel = (\<lambda>(x, y).
        if 0 \<le> x \<and> x < 3 \<and> 0 \<le> y \<and> y < 2 then Inr (Bands [x, y, 255])
        else Inl ''image index out of range'')\<rparr>"

text \<open>An image whose header is fine and whose pixel data cannot be decoded.\<close>

definition img_truncated :: image where
  "img_truncated =
     \<lparr>mode = ''RGBA'', width = 64, height = 64,
      getpixel = (\<lambda>_. Inl ''image file is truncated'')\<rparr>"

text \<open>
  A file system with one file of each kind: a good image, a file that is no image, a
  directory, an image with broken pixel data; the fifth name is missing.
\<close>

definition sample_world :: world where
  "sample_world =
     \<lparr>fs = (\<lambda>p.
        if p = os_path_join base_path ''saver.webp'' then RegularFile (Inr img_ok)
        else if p = os_path_join base_path ''comfort.webp''
          then RegularFile (Inl ''cannot identify image file'')
        else if p = os_path_join base_path ''vip.webp'' then Directory
        else if p = os_path_join base_path ''taxi.webp'' then RegularFile (Inr img_truncated)
        else Absent),
      trace = []\<rparr>"



section \<open>Properties\<close>

subsection \<open>Auxiliary facts\<close>

lemma fs_emit: "fs (emit e w) = fs w"
  by (simp add: emit_def)

lemma trace_emit: "trace (emit e w) = trace w @ [e]"
  by (simp add: emit_def)

lemma getpixels_fs: "fs (snd (getpixels img cs w)) = fs w"
proof (induction cs arbitrary: w)
  case Nil
  show ?case by simp
next
  case (Cons xy cs)
  let ?w1 = "emit (GetPixel (fst xy) (snd xy)) w"
  obtain r v where rv: "getpixels img cs ?w1 = (r, v)"
    by (cases "getpixels img cs ?w1")
  have "fs v = fs w"
    using Cons.IH [of ?w1] rv by (simp add: fs_emit)
  with rv show ?case
    by (cases "getpixel img xy"; cases r) (simp_all add: img_getpixel_def fs_emit)
qed

lemma getpixels_fst: "fst (getpixels img cs w) = fst (getpixels img cs v)"
proof (induction cs arbitrary: w v)
  case Nil
  show ?case by simp
next
  case (Cons xy cs)
  show ?case
  proof (cases "getpixel img xy")
    case (Inl e)
    then show ?thesis by (simp add: img_getpixel_def)
  next
    case (Inr p)
    have "fst (getpixels img cs (emit (GetPixel (fst xy) (snd xy)) w)) =
          fst (getpixels img cs (emit (GetPixel (fst xy) (snd xy)) v))"
      by (rule Cons.IH)
    with Inr show ?thesis
      by (auto simp: img_getpixel_def split: sum.splits prod.splits)
  qed
qed

lemma getpixels_trace:
  "trace (snd (getpixels img cs w)) =
   trace w @ trace (snd (getpixels img cs \<lparr>fs = g, trace = []\<rparr>))"
proof (induction cs arbitrary: w g)
  case Nil
  show ?case by simp
next
  case (Cons xy cs)
  let ?e = "GetPixel (fst xy) (snd xy)"
  show ?case
  proof (cases "getpixel img xy")
    case (Inl e)
    then show ?thesis by (simp add: img_getpixel_def trace_emit)
  next
    case (Inr p)
    have a: "trace (snd (getpixels img cs (emit ?e w))) =
             trace w @ [?e] @ trace (snd (getpixels img cs \<lparr>fs = g, trace = []\<rparr>))"
      using Cons.IH [of "emit ?e w" g] by (simp add: trace_emit)
    have b: "trace (snd (getpixels img cs (emit ?e \<lparr>fs = g, trace = []\<rparr>))) =
             [?e] @ trace (snd (getpixels img cs \<lparr>fs = g, trace = []\<rparr>))"
      using Cons.IH [of "emit ?e \<lparr>fs = g, trace = []\<rparr>" g] by (simp add: trace_emit)
    from Inr a b show ?thesis
      by (auto simp: img_getpixel_def split: sum.splits prod.splits)
  qed
qed


lemma corners_fs: "fs (snd (corners img w)) = fs w"
  unfolding corners_def by (rule getpixels_fs)

lemma corners_fst: "fst (corners img w) = fst (corners img v)"
  unfolding corners_def by (rule getpixels_fst)

lemma corners_trace:
  "trace (snd (corners img w)) = trace w @ trace (snd (corners img \<lparr>fs = g, trace = []\<rparr>))"
  unfolding corners_def by (rule getpixels_trace)

lemma try_block_fs: "fs (snd (try_block f p w)) = fs w"
proof (cases "fs w p")
  case (RegularFile r)
  show ?thesis
  proof (cases r)
    case (Inl e)
    with RegularFile show ?thesis
      by (simp add: try_block_def Image_open_def fs_emit)
  next
    case (Inr img)
    let ?w2 = "print (mode_line f img) (emit (Open p) w)"
    obtain c v where cv: "corners img ?w2 = (c, v)"
      by (cases "corners img ?w2")
    have "fs v = fs w"
      using corners_fs [of img ?w2] cv by (simp add: print_def fs_emit)
    with RegularFile Inr cv show ?thesis
      by (cases c) (simp_all add: try_block_def Image_open_def print_def fs_emit)
  qed
qed (simp_all add: try_block_def Image_open_def fs_emit)

lemma loop_body_fs: "fs (loop_body f w) = fs w"
proof -
  let ?p = "os_path_join base_path f"
  let ?w1 = "emit (Exists ?p) w"
  obtain r v where rv: "try_block f ?p ?w1 = (r, v)"
    by (cases "try_block f ?p ?w1")
  have "fs v = fs w"
    using try_block_fs [of f ?p ?w1] rv by (simp add: fs_emit)
  with rv show ?thesis
    by (cases "fs w ?p"; cases r)
       (simp_all add: loop_body_def os_path_exists_def print_def fs_emit)
qed

lemma for_loop_fs: "fs (for_loop xs w) = fs w"
  by (induction xs arbitrary: w) (simp_all add: loop_body_fs)


lemma body_not_exists:
  assumes "fs w (os_path_join base_path f) = Absent \<or> fs w (os_path_join base_path f) = Inaccessible"
  shows "trace (loop_body f w) =
         trace w @ [Exists (os_path_join base_path f), Print (not_found_line f)]"
  using assms by (auto simp: loop_body_def Let_def os_path_exists_def print_def trace_emit)

lemma body_open_fails:
  assumes "fst (os_path_exists (os_path_join base_path f) w)"
    and "fst (Image_open (os_path_join base_path f) w) = Inl e"
  shows "trace (loop_body f w) =
         trace w @ [Exists (os_path_join base_path f), Open (os_path_join base_path f),
                    Print (error_line f e)]"
  using assms
  by (cases "fs w (os_path_join base_path f)")
     (simp_all add: loop_body_def Let_def os_path_exists_def try_block_def Image_open_def
        print_def trace_emit fs_emit)

lemma body_opened:
  assumes "fs w (os_path_join base_path f) = RegularFile (Inr img)"
  shows "trace (loop_body f w) =
         trace w @ [Exists (os_path_join base_path f), Open (os_path_join base_path f),
                    Print (mode_line f img)] @
         trace (snd (corners img \<lparr>fs = g, trace = []\<rparr>)) @
         [Print (case fst (corners img v) of
                   Inl e \<Rightarrow> error_line f e | Inr cs \<Rightarrow> corners_line cs)]"
proof -
  let ?p = "os_path_join base_path f"
  let ?w2 = "print (mode_line f img) (emit (Open ?p) (emit (Exists ?p) w))"
  obtain c u where cu: "corners img ?w2 = (c, u)"
    by (cases "corners img ?w2")
  have c: "fst (corners img v) = c"
    using corners_fst [of img v ?w2] cu by simp
  have u: "trace u = trace w @ [Exists ?p, Open ?p, Print (mode_line f img)] @
                     trace (snd (corners img \<lparr>fs = g, trace = []\<rparr>))"
    using corners_trace [of img ?w2 g] cu by (simp add: print_def trace_emit)
  from assms cu c u show ?thesis
    by (cases c)
       (simp_all add: loop_body_def Let_def os_path_exists_def try_block_def Image_open_def
          print_def trace_emit fs_emit)
qed

lemma loop_body_trace: "trace (loop_body f w) = trace w @ events_for (fs w) f"
proof -
  let ?p = "os_path_join base_path f"
  let ?v = "\<lparr>fs = fs w, trace = []\<rparr>"
  show ?thesis
  proof (cases "fs w ?p")
    case Absent
    then show ?thesis
      using body_not_exists [of w f] body_not_exists [of ?v f]
      by (simp add: events_for_def)
  next
    case Inaccessible
    then show ?thesis
      using body_not_exists [of w f] body_not_exists [of ?v f]
      by (simp add: events_for_def)
  next
    case Directory
    let ?e = "''[Errno 13] Permission denied: '' @ repr_path ?p"
    have "trace (loop_body f w) = trace w @ [Exists ?p, Open ?p, Print (error_line f ?e)]"
      using Directory by (intro body_open_fails) (simp_all add: os_path_exists_def Image_open_def)
    moreover have "trace (loop_body f ?v) = trace ?v @ [Exists ?p, Open ?p, Print (error_line f ?e)]"
      using Directory by (intro body_open_fails) (simp_all add: os_path_exists_def Image_open_def)
    ultimately show ?thesis by (simp add: events_for_def)
  next
    case (RegularFile r)
    show ?thesis
    proof (cases r)
      case (Inl e)
      have "trace (loop_body f w) = trace w @ [Exists ?p, Open ?p, Print (error_line f e)]"
        using RegularFile Inl
        by (intro body_open_fails) (simp_all add: os_path_exists_def Image_open_def)
      moreover have "trace (loop_body f ?v) = trace ?v @ [Exists ?p, Open ?p, Print (error_line f e)]"
        using RegularFile Inl
        by (intro body_open_fails) (simp_all add: os_path_exists_def Image_open_def)
      ultimately show ?thesis by (simp add: events_for_def)
    next
      case (Inr img)
      have a: "fs w ?p = RegularFile (Inr img)" "fs ?v ?p = RegularFile (Inr img)"
        using RegularFile Inr by simp_all
      show ?thesis
        using body_opened [OF a(1), of "fs w" w] body_opened [OF a(2), of "fs w" w]
        by (simp add: events_for_def)
    qed
  qed
qed

lemma for_loop_trace:
  "trace (for_loop xs w) = trace w @ concat (map (events_for (fs w)) xs)"
  by (induction xs arbitrary: w) (simp_all add: loop_body_trace loop_body_fs)

lemma printed_append: "printed (xs @ ys) = printed xs @ printed ys"
  by (induction xs rule: printed.induct) simp_all

lemma printed_concat: "printed (concat xss) = concat (map printed xss)"
  by (induction xss) (simp_all add: printed_append)

lemma getpixels_printed: "printed (trace (snd (getpixels img cs w))) = printed (trace w)"
proof (induction cs arbitrary: w)
  case Nil
  show ?case by simp
next
  case (Cons xy cs)
  let ?w1 = "emit (GetPixel (fst xy) (snd xy)) w"
  obtain r v where rv: "getpixels img cs ?w1 = (r, v)"
    by (cases "getpixels img cs ?w1")
  have "printed (trace v) = printed (trace w)"
    using Cons.IH [of ?w1] rv by (simp add: trace_emit printed_append)
  with rv show ?case
    by (cases "getpixel img xy"; cases r)
       (simp_all add: img_getpixel_def trace_emit printed_append)
qed


lemma corners_first_read:
  "\<exists>reads. trace (snd (corners img w)) = trace w @ GetPixel 0 0 # reads \<and> printed reads = []"
proof -
  let ?w1 = "emit (GetPixel 0 0) w"
  let ?cs = "[(width img - 1, 0), (0, height img - 1), (width img - 1, height img - 1)]"
  let ?v = "\<lparr>fs = fs w, trace = []\<rparr>"
  obtain r v where rv: "getpixels img ?cs ?w1 = (r, v)"
    by (cases "getpixels img ?cs ?w1")
  have t: "trace v = trace w @ GetPixel 0 0 # trace (snd (getpixels img ?cs ?v))"
    using getpixels_trace [of img ?cs ?w1 "fs w"] rv by (simp add: trace_emit)
  have p: "printed (trace (snd (getpixels img ?cs ?v))) = []"
    using getpixels_printed [of img ?cs ?v] by simp
  show ?thesis
  proof (cases "getpixel img (0, 0)")
    case (Inl e)
    then have "trace (snd (corners img w)) = trace w @ GetPixel 0 0 # []"
      by (simp add: corners_def img_getpixel_def trace_emit)
    then show ?thesis by (intro exI [of _ "[]"]) simp
  next
    case (Inr a)
    with rv t have "trace (snd (corners img w)) =
          trace w @ GetPixel 0 0 # trace (snd (getpixels img ?cs ?v))"
      by (cases r) (simp_all add: corners_def img_getpixel_def)
    with p show ?thesis by blast
  qed
qed


lemma corners_printed: "printed (trace (snd (corners img w))) = printed (trace w)"
  unfolding corners_def by (rule getpixels_printed)

lemma block_shape:
  "printed (events_for g f) = [not_found_line f] \<or>
   (\<exists>e. printed (events_for g f) = [error_line f e]) \<or>
   (\<exists>img e. printed (events_for g f) = [mode_line f img, error_line f e]) \<or>
   (\<exists>img cs. printed (events_for g f) = [mode_line f img, corners_line cs])"
proof -
  let ?p = "os_path_join base_path f"
  let ?v = "\<lparr>fs = g, trace = []\<rparr>"
  show ?thesis
  proof (cases "g ?p")
    case Absent
    then show ?thesis
      using body_not_exists [of ?v f] by (simp add: events_for_def)
  next
    case Inaccessible
    then show ?thesis
      using body_not_exists [of ?v f] by (simp add: events_for_def)
  next
    case Directory
    then have "trace (loop_body f ?v) =
          trace ?v @ [Exists ?p, Open ?p,
            Print (error_line f (''[Errno 13] Permission denied: '' @ repr_path ?p))]"
      by (intro body_open_fails) (simp_all add: os_path_exists_def Image_open_def)
    then have "printed (events_for g f) =
          [error_line f (''[Errno 13] Permission denied: '' @ repr_path ?p)]"
      by (simp add: events_for_def)
    then show ?thesis by blast
  next
    case (RegularFile r)
    show ?thesis
    proof (cases r)
      case (Inl e)
      with RegularFile
      have "trace (loop_body f ?v) = trace ?v @ [Exists ?p, Open ?p, Print (error_line f e)]"
        by (intro body_open_fails) (simp_all add: os_path_exists_def Image_open_def)
      then have "printed (events_for g f) = [error_line f e]"
        by (simp add: events_for_def)
      then show ?thesis by blast
    next
      case (Inr img)
      with RegularFile have a: "fs ?v ?p = RegularFile (Inr img)" by simp
      have "printed (trace (snd (corners img ?v))) = []"
        by (simp add: corners_printed)
      then have "printed (events_for g f) =
          [mode_line f img,
           case fst (corners img ?v) of Inl e \<Rightarrow> error_line f e | Inr cs \<Rightarrow> corners_line cs]"
        using body_opened [OF a, of g ?v] by (simp add: events_for_def printed_append)
      then show ?thesis
        by (cases "fst (corners img ?v)") auto
    qed
  qed
qed

lemma for_loop_stdout:
  "stdout (for_loop xs w) = stdout w @ concat (map (\<lambda>g. printed (events_for (fs w) g)) xs)"
  by (simp add: stdout_def for_loop_trace printed_append printed_concat comp_def)

lemma getpixels_reads:
  "\<exists>k. trace (snd (getpixels img cs w)) =
        trace w @ take k (map (\<lambda>xy. GetPixel (fst xy) (snd xy)) cs)"
proof (induction cs arbitrary: w)
  case Nil
  show ?case by simp
next
  case (Cons xy cs)
  let ?e = "GetPixel (fst xy) (snd xy)"
  let ?w1 = "emit ?e w"
  obtain r v where rv: "getpixels img cs ?w1 = (r, v)"
    by (cases "getpixels img cs ?w1")
  obtain k where k: "trace v = trace w @ ?e # take k (map (\<lambda>xy. GetPixel (fst xy) (snd xy)) cs)"
    using Cons.IH [of ?w1] rv by (auto simp: trace_emit)
  show ?case
  proof (cases "getpixel img xy")
    case (Inl e)
    then have "trace (snd (getpixels img (xy # cs) w)) =
        trace w @ take 1 (map (\<lambda>xy. GetPixel (fst xy) (snd xy)) (xy # cs))"
      by (simp add: img_getpixel_def trace_emit)
    then show ?thesis by blast
  next
    case (Inr p)
    with rv k have "trace (snd (getpixels img (xy # cs) w)) =
        trace w @ take (Suc k) (map (\<lambda>xy. GetPixel (fst xy) (snd xy)) (xy # cs))"
      by (cases r) (simp_all add: img_getpixel_def)
    then show ?thesis by blast
  qed
qed

lemma corners_reads:
  "\<exists>k. trace (snd (corners img w)) =
        trace w @ GetPixel 0 0 #
        take k [GetPixel (width img - 1) 0, GetPixel 0 (height img - 1),
                GetPixel (width img - 1) (height img - 1)]"
proof -
  let ?w1 = "emit (GetPixel 0 0) w"
  let ?cs = "[(width img - 1, 0), (0, height img - 1), (width img - 1, height img - 1)]"
  let ?es = "[GetPixel (width img - 1) 0, GetPixel 0 (height img - 1),
              GetPixel (width img - 1) (height img - 1)]"
  obtain r v where rv: "getpixels img ?cs ?w1 = (r, v)"
    by (cases "getpixels img ?cs ?w1")
  obtain k where k: "trace v = trace w @ GetPixel 0 0 # take k ?es"
    using getpixels_reads [of img ?cs ?w1] rv by (auto simp: trace_emit)
  show ?thesis
  proof (cases "getpixel img (0, 0)")
    case (Inl e)
    then have "trace (snd (corners img w)) = trace w @ GetPixel 0 0 # take 0 ?es"
      by (simp add: corners_def img_getpixel_def trace_emit)
    then show ?thesis by blast
  next
    case (Inr a)
    with rv k have "trace (snd (corners img w)) = trace w @ GetPixel 0 0 # take k ?es"
      by (cases r) (simp_all add: corners_def img_getpixel_def)
    then show ?thesis by blast
  qed
qed

lemma corners_all_reads:
  assumes "fst (corners img w) = Inr cs"
  shows "trace (snd (corners img w)) =
         trace w @ [GetPixel 0 0, GetPixel (width img - 1) 0, GetPixel 0 (height img - 1),
                    GetPixel (width img - 1) (height img - 1)]"
  using assms
  by (auto simp: corners_def img_getpixel_def emit_def split: sum.splits)


lemma iteration_shape:
  "((g (os_path_join base_path f) = Absent \<or> g (os_path_join base_path f) = Inaccessible) \<and>
    events_for g f = [Exists (os_path_join base_path f), Print (not_found_line f)]) \<or>
   (\<exists>e. (g (os_path_join base_path f) = Directory \<or>
         g (os_path_join base_path f) = RegularFile (Inl e)) \<and>
        events_for g f =
          [Exists (os_path_join base_path f), Open (os_path_join base_path f),
           Print (error_line f e)]) \<or>
   (\<exists>img k e. g (os_path_join base_path f) = RegularFile (Inr img) \<and>
        fst (corners img \<lparr>fs = g, trace = []\<rparr>) = Inl e \<and>
        events_for g f =
          [Exists (os_path_join base_path f), Open (os_path_join base_path f),
           Print (mode_line f img), GetPixel 0 0] @
          take k [GetPixel (width img - 1) 0, GetPixel 0 (height img - 1),
                  GetPixel (width img - 1) (height img - 1)] @
          [Print (error_line f e)]) \<or>
   (\<exists>img cs. g (os_path_join base_path f) = RegularFile (Inr img) \<and>
        fst (corners img \<lparr>fs = g, trace = []\<rparr>) = Inr cs \<and>
        events_for g f =
          [Exists (os_path_join base_path f), Open (os_path_join base_path f),
           Print (mode_line f img),
           GetPixel 0 0, GetPixel (width img - 1) 0, GetPixel 0 (height img - 1),
           GetPixel (width img - 1) (height img - 1),
           Print (corners_line cs)])"
proof -
  let ?p = "os_path_join base_path f"
  let ?v = "\<lparr>fs = g, trace = []\<rparr>"
  show ?thesis
  proof (cases "g ?p")
    case Absent
    then show ?thesis
      using body_not_exists [of ?v f] by (simp add: events_for_def)
  next
    case Inaccessible
    then show ?thesis
      using body_not_exists [of ?v f] by (simp add: events_for_def)
  next
    case Directory
    then have "trace (loop_body f ?v) =
          trace ?v @ [Exists ?p, Open ?p,
            Print (error_line f (''[Errno 13] Permission denied: '' @ repr_path ?p))]"
      by (intro body_open_fails) (simp_all add: os_path_exists_def Image_open_def)
    then have "events_for g f =
          [Exists ?p, Open ?p,
           Print (error_line f (''[Errno 13] Permission denied: '' @ repr_path ?p))]"
      by (simp add: events_for_def)
    with Directory show ?thesis by blast
  next
    case (RegularFile r)
    show ?thesis
    proof (cases r)
      case (Inl e)
      with RegularFile
      have "trace (loop_body f ?v) = trace ?v @ [Exists ?p, Open ?p, Print (error_line f e)]"
        by (intro body_open_fails) (simp_all add: os_path_exists_def Image_open_def)
      then have "events_for g f = [Exists ?p, Open ?p, Print (error_line f e)]"
        by (simp add: events_for_def)
      with RegularFile Inl show ?thesis by blast
    next
      case (Inr img)
      with RegularFile have n: "g ?p = RegularFile (Inr img)" by simp
      then have a: "fs ?v ?p = RegularFile (Inr img)" by simp
      let ?es = "[GetPixel (width img - 1) 0, GetPixel 0 (height img - 1),
                  GetPixel (width img - 1) (height img - 1)]"
      have ev: "events_for g f =
          [Exists ?p, Open ?p, Print (mode_line f img)] @
          trace (snd (corners img ?v)) @
          [Print (case fst (corners img ?v) of
                    Inl e \<Rightarrow> error_line f e | Inr cs \<Rightarrow> corners_line cs)]"
        using body_opened [OF a, of g ?v] by (simp add: events_for_def)
      show ?thesis
      proof (cases "fst (corners img ?v)")
        case (Inl e)
        obtain k where "trace (snd (corners img ?v)) = GetPixel 0 0 # take k ?es"
          using corners_reads [of img ?v] by auto
        with ev Inl have "events_for g f =
            [Exists ?p, Open ?p, Print (mode_line f img), GetPixel 0 0] @
            take k ?es @ [Print (error_line f e)]"
          by simp
        with n Inl show ?thesis by blast
      next
        case (Inr cs)
        then have "trace (snd (corners img ?v)) =
            [GetPixel 0 0, GetPixel (width img - 1) 0, GetPixel 0 (height img - 1),
             GetPixel (width img - 1) (height img - 1)]"
          using corners_all_reads [of img ?v cs] by simp
        with ev Inr have "events_for g f =
            [Exists ?p, Open ?p, Print (mode_line f img),
             GetPixel 0 0, GetPixel (width img - 1) 0, GetPixel 0 (height img - 1),
             GetPixel (width img - 1) (height img - 1), Print (corners_line cs)]"
          by simp
        with n Inr show ?thesis by blast
      qed
    qed
  qed
qed



text \<open>The sample file system, node by node, and two of the lines it leads to.\<close>

lemma sample_nodes:
  "fs sample_world (os_path_join base_path ''saver.webp'') = RegularFile (Inr img_ok)"
  "fs sample_world (os_path_join base_path ''comfort.webp'') =
     RegularFile (Inl ''cannot identify image file'')"
  "fs sample_world (os_path_join base_path ''vip.webp'') = Directory"
  "fs sample_world (os_path_join base_path ''taxi.webp'') = RegularFile (Inr img_truncated)"
  "fs sample_world (os_path_join base_path ''scooter.webp'') = Absent"
  "trace sample_world = []"
  by (simp_all add: sample_world_def os_path_join_def base_path_def)

lemma sample_lines:
  "printed (events_for (fs sample_world) ''scooter.webp'') = [''scooter.webp not found'']"
  "mode_line ''taxi.webp'' img_truncated = ''taxi.webp: Mode=RGBA, Size=(64, 64)''"
  by code_simp+

lemma sample_blocks:
  "printed (events_for (fs sample_world) ''saver.webp'') =
     [''saver.webp: Mode=RGB, Size=(3, 2)'',
      ''  Corners: [(0, 0, 255), (2, 0, 255), (0, 1, 255), (2, 1, 255)]'']"
  "printed (events_for (fs sample_world) ''comfort.webp'') =
     [''  Error reading comfort.webp: cannot identify image file'']"
  "printed (events_for (fs sample_world) ''vip.webp'') =
     [''  Error reading vip.webp: [Errno 13] Permission denied: '' @
      repr_path (os_path_join base_path ''vip.webp'')]"
  "printed (events_for (fs sample_world) ''taxi.webp'') =
     [''taxi.webp: Mode=RGBA, Size=(64, 64)'',
      ''  Error reading taxi.webp: image file is truncated'']"
  by code_simp+

lemma sample_events:
  "events_for (fs sample_world) ''saver.webp'' =
     [Exists (os_path_join base_path ''saver.webp''),
      Open (os_path_join base_path ''saver.webp''),
      Print ''saver.webp: Mode=RGB, Size=(3, 2)'',
      GetPixel 0 0, GetPixel 2 0, GetPixel 0 1, GetPixel 2 1,
      Print ''  Corners: [(0, 0, 255), (2, 0, 255), (0, 1, 255), (2, 1, 255)]'']"
  "events_for (fs sample_world) ''comfort.webp'' =
     [Exists (os_path_join base_path ''comfort.webp''),
      Open (os_path_join base_path ''comfort.webp''),
      Print ''  Error reading comfort.webp: cannot identify image file'']"
  "events_for (fs sample_world) ''vip.webp'' =
     [Exists (os_path_join base_path ''vip.webp''),
      Open (os_path_join base_path ''vip.webp''),
      Print (''  Error reading vip.webp: [Errno 13] Permission denied: '' @
        repr_path (os_path_join base_path ''vip.webp''))]"
  "events_for (fs sample_world) ''taxi.webp'' =
     [Exists (os_path_join base_path ''taxi.webp''),
      Open (os_path_join base_path ''taxi.webp''),
      Print ''taxi.webp: Mode=RGBA, Size=(64, 64)'',
      GetPixel 0 0,
      Print ''  Error reading taxi.webp: image file is truncated'']"
  "events_for (fs sample_world) ''scooter.webp'' =
     [Exists (os_path_join base_path ''scooter.webp''), Print ''scooter.webp not found'']"
  by code_simp+



subsection \<open>Corner sampling\<close>

text \<open>
  C1. When the file opens as an image and its four corner reads succeed, the iteration
  reads the pixels at \<open>(0, 0)\<close>, \<open>(width - 1, 0)\<close>, \<open>(0, height - 1)\<close> and
  \<open>(width - 1, height - 1)\<close>, in that order, and the line it prints last is the list of
  exactly the four values those reads returned, in the same order: top-left, top-right,
  bottom-left, bottom-right.
\<close>

theorem corner_values_are_direct_reads:
  assumes "fs w (os_path_join base_path f) = RegularFile (Inr img)"
    and "getpixel img (0, 0) = Inr a"
    and "getpixel img (width img - 1, 0) = Inr b"
    and "getpixel img (0, height img - 1) = Inr c"
    and "getpixel img (width img - 1, height img - 1) = Inr d"
  shows "trace (loop_body f w) =
         trace w @
         [Exists (os_path_join base_path f), Open (os_path_join base_path f),
          Print (mode_line f img),
          GetPixel 0 0, GetPixel (width img - 1) 0,
          GetPixel 0 (height img - 1), GetPixel (width img - 1) (height img - 1),
          Print (''  Corners: '' @ repr_list [a, b, c, d])]"
proof -
  have "corners img v =
        (Inr [a, b, c, d],
         v\<lparr>trace := trace v @ [GetPixel 0 0, GetPixel (width img - 1) 0,
            GetPixel 0 (height img - 1), GetPixel (width img - 1) (height img - 1)]\<rparr>)" for v
    using assms(2-5) by (simp add: corners_def img_getpixel_def emit_def)
  then show ?thesis
    using body_opened [OF assms(1), of "fs w" w] by (simp add: corners_line_def)
qed

theorem corner_values_are_direct_reads_witness:
  "fs sample_world (os_path_join base_path ''saver.webp'') = RegularFile (Inr img_ok) \<and>
   getpixel img_ok (0, 0) = Inr (Bands [0, 0, 255]) \<and>
   getpixel img_ok (width img_ok - 1, 0) = Inr (Bands [2, 0, 255]) \<and>
   getpixel img_ok (0, height img_ok - 1) = Inr (Bands [0, 1, 255]) \<and>
   getpixel img_ok (width img_ok - 1, height img_ok - 1) = Inr (Bands [2, 1, 255]) \<and>
   trace (loop_body ''saver.webp'' sample_world) =
     [Exists (os_path_join base_path ''saver.webp''),
      Open (os_path_join base_path ''saver.webp''),
      Print (mode_line ''saver.webp'' img_ok),
      GetPixel 0 0, GetPixel 2 0, GetPixel 0 1, GetPixel 2 1,
      Print (''  Corners: '' @
        repr_list [Bands [0, 0, 255], Bands [2, 0, 255], Bands [0, 1, 255], Bands [2, 1, 255]])]"
proof -
  have h1: "fs sample_world (os_path_join base_path ''saver.webp'') = RegularFile (Inr img_ok)"
    by (simp add: sample_world_def)
  have h2: "getpixel img_ok (0, 0) = Inr (Bands [0, 0, 255])"
    by (simp add: img_ok_def)
  have h3: "getpixel img_ok (width img_ok - 1, 0) = Inr (Bands [2, 0, 255])"
    by (simp add: img_ok_def)
  have h4: "getpixel img_ok (0, height img_ok - 1) = Inr (Bands [0, 1, 255])"
    by (simp add: img_ok_def)
  have h5: "getpixel img_ok (width img_ok - 1, height img_ok - 1) = Inr (Bands [2, 1, 255])"
    by (simp add: img_ok_def)
  have t: "trace sample_world = []" "width img_ok = 3" "height img_ok = 2"
    by (simp_all add: sample_world_def img_ok_def)
  show ?thesis
    using h1 h2 h3 h4 h5 corner_values_are_direct_reads [OF h1 h2 h3 h4 h5] by (simp add: t)
qed

subsection \<open>Missing files\<close>

text \<open>
  C3. When the joined path does not exist, the iteration makes the existence check and
  prints the name followed by \<^verbatim>\<open> not found\<close>, and nothing else happens: the trace
  has no open and no pixel read.
\<close>

theorem missing_file_not_found:
  assumes "fs w (os_path_join base_path f) = Absent"
  shows "trace (loop_body f w) =
         trace w @ [Exists (os_path_join base_path f), Print (f @ '' not found'')]"
  using assms body_not_exists [of w f] by (simp add: not_found_line_def)

theorem missing_file_not_found_witness:
  "fs sample_world (os_path_join base_path ''scooter.webp'') = Absent \<and>
   trace (loop_body ''scooter.webp'' sample_world) =
     trace sample_world @
     [Exists (os_path_join base_path ''scooter.webp''), Print ''scooter.webp not found'']"
proof -
  have h: "fs sample_world (os_path_join base_path ''scooter.webp'') = Absent"
    by (simp add: sample_world_def os_path_join_def base_path_def)
  show ?thesis
    using h missing_file_not_found [OF h] by simp
qed

subsection \<open>No writes\<close>

text \<open>
  C8. The run leaves the file system as it found it: every call the script makes only
  reads it.
\<close>

theorem filesystem_unchanged: "fs (main w) = fs w"
  by (simp add: main_def for_loop_fs)

subsection \<open>The whole run\<close>

text \<open>
  C4. Whatever the file system holds, the run is the five iterations, one per listed
  name and in list order, and every iteration is carried through, whichever of the four
  outcomes it has:
  \<^item> missing (or not examinable): the existence check, then the not-found line;
  \<^item> failed open: the existence check, the open, then the error line;
  \<^item> failed pixel read: the existence check, the open, the mode line, the reads up to
    the one that raises, then the error line;
  \<^item> success: the existence check, the open, the mode line, the four reads, then the
    corners line.
  No outcome of one iteration keeps the later ones from running: the events of the
  remaining names follow in the trace of the run.
\<close>

theorem every_listed_file_is_processed:
  "trace (main w) =
     trace w @
     concat (map (events_for (fs w))
       [''saver.webp'', ''comfort.webp'', ''vip.webp'', ''taxi.webp'', ''scooter.webp'']) \<and>
   (\<forall>f.
     ((fs w (os_path_join base_path f) = Absent \<or>
       fs w (os_path_join base_path f) = Inaccessible) \<and>
      events_for (fs w) f = [Exists (os_path_join base_path f), Print (not_found_line f)]) \<or>
     (\<exists>e. (fs w (os_path_join base_path f) = Directory \<or>
           fs w (os_path_join base_path f) = RegularFile (Inl e)) \<and>
          events_for (fs w) f =
            [Exists (os_path_join base_path f), Open (os_path_join base_path f),
             Print (error_line f e)]) \<or>
     (\<exists>img k e. fs w (os_path_join base_path f) = RegularFile (Inr img) \<and>
          fst (corners img \<lparr>fs = fs w, trace = []\<rparr>) = Inl e \<and>
          events_for (fs w) f =
            [Exists (os_path_join base_path f), Open (os_path_join base_path f),
             Print (mode_line f img), GetPixel 0 0] @
            take k [GetPixel (width img - 1) 0, GetPixel 0 (height img - 1),
                    GetPixel (width img - 1) (height img - 1)] @
            [Print (error_line f e)]) \<or>
     (\<exists>img cs. fs w (os_path_join base_path f) = RegularFile (Inr img) \<and>
          fst (corners img \<lparr>fs = fs w, trace = []\<rparr>) = Inr cs \<and>
          events_for (fs w) f =
            [Exists (os_path_join base_path f), Open (os_path_join base_path f),
             Print (mode_line f img),
             GetPixel 0 0, GetPixel (width img - 1) 0, GetPixel 0 (height img - 1),
             GetPixel (width img - 1) (height img - 1),
             Print (corners_line cs)]))"
proof -
  have "trace (main w) = trace w @ concat (map (events_for (fs w)) files)"
    by (simp add: main_def for_loop_trace)
  then have "trace (main w) =
     trace w @
     concat (map (events_for (fs w))
       [''saver.webp'', ''comfort.webp'', ''vip.webp'', ''taxi.webp'', ''scooter.webp''])"
    unfolding files_def .
  moreover note iteration_shape [of "fs w"]
  ultimately show ?thesis by blast
qed

theorem every_listed_file_is_processed_witness:
  "trace (main sample_world) =
     [Exists (os_path_join base_path ''saver.webp''),
      Open (os_path_join base_path ''saver.webp''),
      Print ''saver.webp: Mode=RGB, Size=(3, 2)'',
      GetPixel 0 0, GetPixel 2 0, GetPixel 0 1, GetPixel 2 1,
      Print ''  Corners: [(0, 0, 255), (2, 0, 255), (0, 1, 255), (2, 1, 255)]'',
      Exists (os_path_join base_path ''comfort.webp''),
      Open (os_path_join base_path ''comfort.webp''),
      Print ''  Error reading comfort.webp: cannot identify image file'',
      Exists (os_path_join base_path ''vip.webp''),
      Open (os_path_join base_path ''vip.webp''),
      Print (''  Error reading vip.webp: [Errno 13] Permission denied: '' @
        repr_path (os_path_join base_path ''vip.webp'')),
      Exists (os_path_join base_path ''taxi.webp''),
      Open (os_path_join base_path ''taxi.webp''),
      Print ''taxi.webp: Mode=RGBA, Size=(64, 64)'',
      GetPixel 0 0,
      Print ''  Error reading taxi.webp: image file is truncated'',
      Exists (os_path_join base_path ''scooter.webp''),
      Print ''scooter.webp not found'']"
proof -
  have "trace (main sample_world) =
     trace sample_world @
     concat (map (events_for (fs sample_world))
       [''saver.webp'', ''comfort.webp'', ''vip.webp'', ''taxi.webp'', ''scooter.webp''])"
    using every_listed_file_is_processed [of sample_world] by (rule conjunct1)
  then show ?thesis
    by (simp add: sample_events sample_nodes)
qed

text \<open>
  C5. The output of the run is the output of the five iterations, one block per name,
  in the order of the list. Each block is one of four shapes, and its first line carries
  the name: the not-found line; the error line; the mode line followed by the error
  line; the mode line followed by the corners line.
\<close>

theorem output_blocks_in_list_order:
  "stdout (main w) =
     stdout w @
     concat (map (\<lambda>f. printed (events_for (fs w) f))
       [''saver.webp'', ''comfort.webp'', ''vip.webp'', ''taxi.webp'', ''scooter.webp'']) \<and>
   (\<forall>f. printed (events_for (fs w) f) = [not_found_line f] \<or>
     (\<exists>e. printed (events_for (fs w) f) = [error_line f e]) \<or>
     (\<exists>img e. printed (events_for (fs w) f) = [mode_line f img, error_line f e]) \<or>
     (\<exists>img cs. printed (events_for (fs w) f) = [mode_line f img, corners_line cs]))"
proof -
  have "stdout (main w) = stdout w @ printed (concat (map (events_for (fs w)) files))"
    by (simp add: main_def stdout_def for_loop_trace printed_append)
  then have "stdout (main w) =
     stdout w @ concat (map (\<lambda>f. printed (events_for (fs w) f)) files)"
    by (simp add: printed_concat comp_def)
  then have "stdout (main w) =
     stdout w @
     concat (map (\<lambda>f. printed (events_for (fs w) f))
       [''saver.webp'', ''comfort.webp'', ''vip.webp'', ''taxi.webp'', ''scooter.webp''])"
    unfolding files_def .
  with block_shape show ?thesis by blast
qed

theorem output_blocks_in_list_order_witness:
  "stdout (main sample_world) =
     [''saver.webp: Mode=RGB, Size=(3, 2)'',
      ''  Corners: [(0, 0, 255), (2, 0, 255), (0, 1, 255), (2, 1, 255)]'',
      ''  Error reading comfort.webp: cannot identify image file'',
      ''  Error reading vip.webp: [Errno 13] Permission denied: '' @
        repr_path (os_path_join base_path ''vip.webp''),
      ''taxi.webp: Mode=RGBA, Size=(64, 64)'',
      ''  Error reading taxi.webp: image file is truncated'',
      ''scooter.webp not found'']"
proof -
  have s: "stdout sample_world = []"
    by (simp add: stdout_def sample_nodes)
  show ?thesis
    using output_blocks_in_list_order [of sample_world]
    by (simp add: s sample_blocks sample_lines)
qed

subsection \<open>Caught errors\<close>

text \<open>
  C2, as stated, fails: the claim gives the output for a file that cannot be decoded as
  exactly \<^verbatim>\<open>Error reading <filename>: <error text>\<close>. The script indents that line by
  two spaces. On the sample file system, for the file that is no image:
\<close>

theorem error_report_not_exact_counterexample:
  "stdout (loop_body ''comfort.webp'' sample_world) =
     [''  Error reading comfort.webp: cannot identify image file''] \<and>
   stdout (loop_body ''comfort.webp'' sample_world) \<noteq>
     [''Error reading comfort.webp: cannot identify image file'']"
proof -
  let ?p = "os_path_join base_path ''comfort.webp''"
  have n: "fs sample_world ?p = RegularFile (Inl ''cannot identify image file'')"
    by (simp add: sample_world_def os_path_join_def base_path_def)
  have "trace (loop_body ''comfort.webp'' sample_world) =
        trace sample_world @
        [Exists ?p, Open ?p, Print (error_line ''comfort.webp'' ''cannot identify image file'')]"
    using n by (intro body_open_fails) (simp_all add: os_path_exists_def Image_open_def)
  then have "stdout (loop_body ''comfort.webp'' sample_world) =
        [error_line ''comfort.webp'' ''cannot identify image file'']"
    by (simp add: stdout_def sample_world_def)
  then show ?thesis by (simp add: error_line_def)
qed

text \<open>
  C2, amended. When the path exists and the open raises, the iteration prints exactly
  one line: two spaces, \<^verbatim>\<open>Error reading \<close>, the name, a colon and a space, the text
  of the exception. When the open succeeds and a corner read raises, that line follows
  the mode line already printed. In both cases the loop goes on: the blocks of the
  remaining names follow.
\<close>

theorem caught_error_report:
  "(fst (os_path_exists (os_path_join base_path f) w) \<and>
    fst (Image_open (os_path_join base_path f) w) = Inl e \<longrightarrow>
      stdout (for_loop (f # rest) w) =
        stdout w @ [''  Error reading '' @ f @ '': '' @ e] @
        concat (map (\<lambda>g. printed (events_for (fs w) g)) rest)) \<and>
   (fst (Image_open (os_path_join base_path f) w) = Inr img \<and>
    fst (corners img w) = Inl e \<longrightarrow>
      stdout (for_loop (f # rest) w) =
        stdout w @ [mode_line f img, ''  Error reading '' @ f @ '': '' @ e] @
        concat (map (\<lambda>g. printed (events_for (fs w) g)) rest))"
proof (intro conjI impI)
  let ?p = "os_path_join base_path f"
  assume a: "fst (os_path_exists ?p w) \<and> fst (Image_open ?p w) = Inl e"
  then have "trace (loop_body f w) = trace w @ [Exists ?p, Open ?p, Print (error_line f e)]"
    by (intro body_open_fails) simp_all
  then have "stdout (loop_body f w) = stdout w @ [error_line f e]"
    by (simp add: stdout_def printed_append)
  then show "stdout (for_loop (f # rest) w) =
        stdout w @ [''  Error reading '' @ f @ '': '' @ e] @
        concat (map (\<lambda>g. printed (events_for (fs w) g)) rest)"
    using for_loop_stdout [of rest "loop_body f w"]
    by (simp add: loop_body_fs error_line_def)
next
  let ?p = "os_path_join base_path f"
  assume a: "fst (Image_open ?p w) = Inr img \<and> fst (corners img w) = Inl e"
  then have n: "fs w ?p = RegularFile (Inr img)"
    by (cases "fs w ?p") (simp_all add: Image_open_def)
  have "printed (trace (snd (corners img \<lparr>fs = fs w, trace = []\<rparr>))) = []"
    by (simp add: corners_printed)
  then have "stdout (loop_body f w) = stdout w @ [mode_line f img, error_line f e]"
    using body_opened [OF n, of "fs w" w] a by (simp add: stdout_def printed_append)
  then show "stdout (for_loop (f # rest) w) =
        stdout w @ [mode_line f img, ''  Error reading '' @ f @ '': '' @ e] @
        concat (map (\<lambda>g. printed (events_for (fs w) g)) rest)"
    using for_loop_stdout [of rest "loop_body f w"]
    by (simp add: loop_body_fs error_line_def)
qed

theorem caught_error_report_witness:
  "fst (os_path_exists (os_path_join base_path ''comfort.webp'') sample_world) \<and>
   fst (Image_open (os_path_join base_path ''comfort.webp'') sample_world) =
     Inl ''cannot identify image file'' \<and>
   stdout (for_loop [''comfort.webp'', ''scooter.webp''] sample_world) =
     [''  Error reading comfort.webp: cannot identify image file'',
      ''scooter.webp not found''] \<and>
   fst (Image_open (os_path_join base_path ''taxi.webp'') sample_world) = Inr img_truncated \<and>
   fst (corners img_truncated sample_world) = Inl ''image file is truncated'' \<and>
   stdout (for_loop [''taxi.webp'', ''scooter.webp''] sample_world) =
     [''taxi.webp: Mode=RGBA, Size=(64, 64)'',
      ''  Error reading taxi.webp: image file is truncated'',
      ''scooter.webp not found'']"
proof -
  have h1: "fst (os_path_exists (os_path_join base_path ''comfort.webp'') sample_world)"
    by (simp add: os_path_exists_def sample_nodes)
  have h2: "fst (Image_open (os_path_join base_path ''comfort.webp'') sample_world) =
     Inl ''cannot identify image file''"
    by (simp add: Image_open_def sample_nodes)
  have h3: "fst (Image_open (os_path_join base_path ''taxi.webp'') sample_world) =
     Inr img_truncated"
    by (simp add: Image_open_def sample_nodes)
  have h4: "fst (corners img_truncated sample_world) = Inl ''image file is truncated''"
    by (simp add: corners_def img_getpixel_def img_truncated_def)
  have s: "stdout sample_world = []"
    by (simp add: stdout_def sample_nodes)
  show ?thesis
    using h1 h2 h3 h4
      caught_error_report [of "''comfort.webp''" sample_world "''cannot identify image file''"
        "[''scooter.webp'']"]
      caught_error_report [of "''taxi.webp''" sample_world "''image file is truncated''"
        "[''scooter.webp'']" img_truncated]
    by (simp add: s sample_lines)
qed

text \<open>
  C9. When the open succeeds and a corner read raises, the mode line is printed before
  the first pixel read is made, and the error line comes after the reads: the error
  report is not the only output for that file.
\<close>

theorem mode_line_precedes_read_error:
  assumes "fs w (os_path_join base_path f) = RegularFile (Inr img)"
    and "fst (corners img w) = Inl e"
  shows "\<exists>reads. printed reads = [] \<and>
           trace (loop_body f w) =
             trace w @
             [Exists (os_path_join base_path f), Open (os_path_join base_path f),
              Print (mode_line f img), GetPixel 0 0] @
             reads @ [Print (error_line f e)]"
proof -
  obtain reads where r: "trace (snd (corners img \<lparr>fs = fs w, trace = []\<rparr>)) = GetPixel 0 0 # reads"
    and p: "printed reads = []"
    using corners_first_read [of img "\<lparr>fs = fs w, trace = []\<rparr>"] by auto
  have "trace (loop_body f w) =
             trace w @
             [Exists (os_path_join base_path f), Open (os_path_join base_path f),
              Print (mode_line f img), GetPixel 0 0] @
             reads @ [Print (error_line f e)]"
    using body_opened [OF assms(1), of "fs w" w] assms(2) r by simp
  with p show ?thesis by blast
qed

theorem mode_line_precedes_read_error_witness:
  "fs sample_world (os_path_join base_path ''taxi.webp'') = RegularFile (Inr img_truncated) \<and>
   fst (corners img_truncated sample_world) = Inl ''image file is truncated'' \<and>
   (\<exists>reads. printed reads = [] \<and>
      trace (loop_body ''taxi.webp'' sample_world) =
        [Exists (os_path_join base_path ''taxi.webp''),
         Open (os_path_join base_path ''taxi.webp''),
         Print ''taxi.webp: Mode=RGBA, Size=(64, 64)'', GetPixel 0 0] @
        reads @ [Print ''  Error reading taxi.webp: image file is truncated''])"
proof -
  have h1: "fs sample_world (os_path_join base_path ''taxi.webp'') =
     RegularFile (Inr img_truncated)"
    by (rule sample_nodes)
  have h2: "fst (corners img_truncated sample_world) = Inl ''image file is truncated''"
    by (simp add: corners_def img_getpixel_def img_truncated_def)
  show ?thesis
    using h1 h2 mode_line_precedes_read_error [OF h1 h2]
    by (simp add: sample_nodes sample_lines error_line_def)
qed

text \<open>
  C10. The existence check does not ask whether the path is a regular file. When the
  joined path is a directory the iteration goes on to open it, the open raises, and the
  line printed is the error report, not the not-found line.
\<close>

theorem directory_reported_as_read_error:
  assumes "fs w (os_path_join base_path f) = Directory"
  shows "\<exists>e. trace (loop_body f w) =
             trace w @
             [Exists (os_path_join base_path f), Open (os_path_join base_path f),
              Print (''  Error reading '' @ f @ '': '' @ e)] \<and>
           stdout (loop_body f w) \<noteq> stdout w @ [f @ '' not found'']"
proof -
  let ?p = "os_path_join base_path f"
  let ?e = "''[Errno 13] Permission denied: '' @ repr_path ?p"
  have t: "trace (loop_body f w) = trace w @ [Exists ?p, Open ?p, Print (error_line f ?e)]"
    using assms by (intro body_open_fails) (simp_all add: os_path_exists_def Image_open_def)
  then have "stdout (loop_body f w) = stdout w @ [error_line f ?e]"
    by (simp add: stdout_def printed_append)
  moreover have "length (error_line f ?e) \<noteq> length (f @ '' not found'')"
    by (simp add: error_line_def)
  ultimately have "stdout (loop_body f w) \<noteq> stdout w @ [f @ '' not found'']"
    by auto
  with t show ?thesis unfolding error_line_def by blast
qed

theorem directory_reported_as_read_error_witness:
  "fs sample_world (os_path_join base_path ''vip.webp'') = Directory \<and>
   (\<exists>e. trace (loop_body ''vip.webp'' sample_world) =
      [Exists (os_path_join base_path ''vip.webp''),
       Open (os_path_join base_path ''vip.webp''),
       Print (''  Error reading vip.webp: '' @ e)] \<and>
    stdout (loop_body ''vip.webp'' sample_world) \<noteq> [''vip.webp not found''])"
proof -
  have h: "fs sample_world (os_path_join base_path ''vip.webp'') = Directory"
    by (rule sample_nodes)
  have s: "stdout sample_world = []"
    by (simp add: stdout_def sample_nodes)
  show ?thesis
    using h directory_reported_as_read_error [OF h]
    by (simp add: sample_nodes s)
qed

subsection \<open>An unreadable base directory\<close>




end
